theory Spec2Isabelle
  imports Complex_Main "HOL-Library.Sublist"
begin

section \<open>Values of the venue's messages\<close>

text \<open>
  The transport hands the handlers decoded JSON: strings, integers, arrays and objects (the
  venue sends its decimal numbers as strings). An object is an association list with
  distinct keys; a lookup takes the first binding of a key.
\<close>

datatype jv = S string | I int | L "jv list" | D "(string \<times> jv) list"

text \<open>The exceptions the handlers can meet; \<open>TransportError\<close> is whatever the transport raises.\<close>

datatype error = KeyError | TypeError | ValueError | TransportError

definition bind_err :: "error + 'a \<Rightarrow> ('a \<Rightarrow> error + 'b) \<Rightarrow> error + 'b" where
  "bind_err r f = (case r of Inl e \<Rightarrow> Inl e | Inr x \<Rightarrow> f x)"

text \<open>\<open>v[k]\<close> with a string key: only an object can be subscripted by a string.\<close>

fun subscript :: "jv \<Rightarrow> string \<Rightarrow> error + jv" where
  "subscript (D kvs) k = (case map_of kvs k of None \<Rightarrow> Inl KeyError | Some v \<Rightarrow> Inr v)"
| "subscript (S s) k = Inl TypeError"
| "subscript (I n) k = Inl TypeError"
| "subscript (L xs) k = Inl TypeError"

text \<open>\<open>k in v\<close> with a string on the left: key of an object, element of an array,
  substring of a string; an integer is not a container.\<close>

fun contains :: "string \<Rightarrow> jv \<Rightarrow> error + bool" where
  "contains k (D kvs) = Inr (k \<in> set (map fst kvs))"
| "contains k (L xs) = Inr (S k \<in> set xs)"
| "contains k (S s) = Inr (sublist k s)"
| "contains k (I n) = Inl TypeError"

text \<open>\<open>for x in v\<close>: the elements of an array, the keys of an object, the characters of a
  string; an integer cannot be iterated.\<close>

fun iterate :: "jv \<Rightarrow> error + jv list" where
  "iterate (L xs) = Inr xs"
| "iterate (D kvs) = Inr (map (\<lambda>kv. S (fst kv)) kvs)"
| "iterate (S s) = Inr (map (\<lambda>c. S [c]) s)"
| "iterate (I n) = Inl TypeError"

text \<open>Arrays and objects cannot be dictionary keys.\<close>

fun hashable :: "jv \<Rightarrow> bool" where
  "hashable (S s) = True"
| "hashable (I n) = True"
| "hashable (L xs) = False"
| "hashable (D kvs) = False"

text \<open>
  The builtin \<open>float\<close> is a parameter \<open>flt\<close> of the handlers: it maps a message value to a
  number of an arbitrary type \<open>'f\<close> or raises (\<open>ValueError\<close> on a string that is not a
  well-formed number).
\<close>

type_synonym 'f pyfloat = "jv \<Rightarrow> error + 'f"

section \<open>BinanceOrder and BinanceCache\<close>

record 'f BinanceOrder =
  event :: jv
  symbol :: jv
  side :: jv
  order_type :: jv
  id' :: jv
  cumulative_quote_qty :: 'f
  status :: jv
  price :: 'f
  transaction_time :: jv

definition BinanceOrder_init :: "'f pyfloat \<Rightarrow> jv \<Rightarrow> error + 'f BinanceOrder" where
  "BinanceOrder_init flt ev =
     bind_err (subscript ev ''s'') (\<lambda>s.
     bind_err (subscript ev ''S'') (\<lambda>sd.
     bind_err (subscript ev ''o'') (\<lambda>ot.
     bind_err (subscript ev ''i'') (\<lambda>oid.
     bind_err (subscript ev ''Z'') (\<lambda>z.
     bind_err (flt z) (\<lambda>q.
     bind_err (subscript ev ''X'') (\<lambda>st.
     bind_err (subscript ev ''p'') (\<lambda>p.
     bind_err (flt p) (\<lambda>pr.
     bind_err (subscript ev ''T'') (\<lambda>tt.
       Inr \<lparr>event = ev, symbol = s, side = sd, order_type = ot, id' = oid,
            cumulative_quote_qty = q, status = st, price = pr,
            transaction_time = tt\<rparr>))))))))))"

record 'f BinanceCache =
  ticker_values :: "jv \<rightharpoonup> 'f"
  balances :: "jv \<rightharpoonup> 'f"
  non_existent_tickers :: "string set"
  orders :: "jv \<rightharpoonup> 'f BinanceOrder"

section \<open>BinanceStreamManager\<close>

datatype sub = Ticker | User

datatype coll = TickerValues | Balances

text \<open>
  The calls the manager makes on its collaborators, in order: the logger, \<open>time.sleep\<close>,
  the socket manager's start and stop requests, and \<open>clear()\<close> on a cache collection.
\<close>

datatype event =
    LogDebug
  | LogWarning nat
  | LogInfo error
  | Sleep nat
  | StartReq sub
  | Stop "string option"
  | Clear coll

text \<open>
  What the socket manager answers to a start request: a connection key, \<open>False\<close>, or an
  exception. The transport is a parameter: its answer to the \<open>n\<close>-th request it receives.
\<close>

datatype response = Path string | RFalse | Fails error

type_synonym transport = "sub \<Rightarrow> nat \<Rightarrow> response"

datatype 'a outcome = Returned 'a | Raised error | OutOfFuel

record 'f manager =
  cache :: "'f BinanceCache"
  ticker_price_socket_conn_key :: "string option"
  user_socket_conn_key :: "string option"
  requests :: nat
  trace :: "event list"

definition emit :: "event \<Rightarrow> 'f manager \<Rightarrow> 'f manager" where
  "emit ev m = m\<lparr>trace := trace m @ [ev]\<rparr>"

definition bm_start :: "transport \<Rightarrow> sub \<Rightarrow> 'f manager \<Rightarrow> response \<times> 'f manager" where
  "bm_start bm sb m = (bm sb (requests m), emit (StartReq sb) (m\<lparr>requests := Suc (requests m)\<rparr>))"

definition stop_socket :: "string option \<Rightarrow> 'f manager \<Rightarrow> 'f manager" where
  "stop_socket key m = emit (Stop key) m"

text \<open>The \<open>while attempts < 20\<close> loop of \<open>retry\<close>, from a given value of \<open>attempts\<close>.\<close>

function retry_loop ::
  "('f manager \<Rightarrow> string option outcome \<times> 'f manager) \<Rightarrow> nat \<Rightarrow> 'f manager
     \<Rightarrow> string option outcome \<times> 'f manager" where
  "retry_loop func attempts m =
     (if attempts < 20 then
        (case func m of
           (Returned v, m') \<Rightarrow> (Returned v, m')
         | (Raised e, m') \<Rightarrow>
             retry_loop func (attempts + 1)
               (if attempts = 0 then emit (LogInfo e) (emit (LogWarning attempts) m')
                else emit (LogWarning attempts) m')
         | (OutOfFuel, m') \<Rightarrow> (OutOfFuel, m'))
      else (Returned None, m))"
  by pat_completeness auto
termination
  by (relation "measure (\<lambda>(func, attempts, m). 20 - attempts)") auto

definition retry ::
  "('f manager \<Rightarrow> string option outcome \<times> 'f manager) \<Rightarrow> 'f manager
     \<Rightarrow> string option outcome \<times> 'f manager" where
  "retry func m = (let attempts = 0 in retry_loop func attempts (emit (Sleep (1 + attempts * 5)) m))"

text \<open>
  \<open>_start_ticker_values_socket\<close> and \<open>_start_user_socket\<close> differ only in the subscription
  they request. Each calls \<open>retry\<close> on itself; the fuel bounds the depth of that recursion,
  and \<open>OutOfFuel\<close> is a run that goes deeper.
\<close>

primrec start_socket ::
  "nat \<Rightarrow> transport \<Rightarrow> sub \<Rightarrow> 'f manager \<Rightarrow> string option outcome \<times> 'f manager" where
  "start_socket 0 bm sb m = (OutOfFuel, m)"
| "start_socket (Suc fuel) bm sb m =
     (case bm_start bm sb (emit LogDebug m) of
        (Path p, m') \<Rightarrow>
          if p \<noteq> [] then (Returned (Some p), m') else retry (start_socket fuel bm sb) m'
      | (RFalse, m') \<Rightarrow> retry (start_socket fuel bm sb) m'
      | (Fails e, m') \<Rightarrow> (Raised e, m'))"

definition start_ticker_values_socket ::
  "nat \<Rightarrow> transport \<Rightarrow> 'f manager \<Rightarrow> string option outcome \<times> 'f manager" where
  "start_ticker_values_socket fuel bm m = start_socket fuel bm Ticker m"

definition start_user_socket ::
  "nat \<Rightarrow> transport \<Rightarrow> 'f manager \<Rightarrow> string option outcome \<times> 'f manager" where
  "start_user_socket fuel bm m = start_socket fuel bm User m"

subsection \<open>The ticker handler\<close>

definition set_ticker :: "'f pyfloat \<Rightarrow> 'f manager \<Rightarrow> jv \<Rightarrow> error + 'f manager" where
  "set_ticker flt m ticker =
     bind_err (subscript ticker ''c'') (\<lambda>c.
     bind_err (flt c) (\<lambda>v.
     bind_err (subscript ticker ''s'') (\<lambda>k.
       if hashable k
       then Inr (m\<lparr>cache := (cache m)\<lparr>ticker_values := (ticker_values (cache m))(k \<mapsto> v)\<rparr>\<rparr>)
       else Inl TypeError)))"

fun ticker_loop :: "'f pyfloat \<Rightarrow> 'f manager \<Rightarrow> jv list \<Rightarrow> unit outcome \<times> 'f manager" where
  "ticker_loop flt m [] = (Returned (), m)"
| "ticker_loop flt m (t # ts) =
     (case set_ticker flt m t of
        Inl e \<Rightarrow> (Raised e, m)
      | Inr m' \<Rightarrow> ticker_loop flt m' ts)"

definition restart_ticker :: "nat \<Rightarrow> transport \<Rightarrow> 'f manager \<Rightarrow> unit outcome \<times> 'f manager" where
  "restart_ticker fuel bm m =
     (let m1 = emit LogDebug m;
          m2 = stop_socket (ticker_price_socket_conn_key m1) m1
      in case start_ticker_values_socket fuel bm m2 of
           (Returned k, m3) \<Rightarrow>
             (Returned (),
              emit (Clear TickerValues)
                (m3\<lparr>ticker_price_socket_conn_key := k,
                    cache := (cache m3)\<lparr>ticker_values := Map.empty\<rparr>\<rparr>))
         | (Raised e, m3) \<Rightarrow> (Raised e, m3)
         | (OutOfFuel, m3) \<Rightarrow> (OutOfFuel, m3))"

text \<open>The test \<open>"e" in msg and msg["e"] == "error"\<close>, with its short circuit.\<close>

definition is_error_msg :: "jv \<Rightarrow> error + bool" where
  "is_error_msg msg =
     bind_err (contains ''e'' msg) (\<lambda>has_e.
       if has_e then bind_err (subscript msg ''e'') (\<lambda>kind. Inr (kind = S ''error''))
       else Inr False)"

definition process_ticker_values ::
  "'f pyfloat \<Rightarrow> nat \<Rightarrow> transport \<Rightarrow> 'f manager \<Rightarrow> jv \<Rightarrow> unit outcome \<times> 'f manager" where
  "process_ticker_values flt fuel bm m msg =
     (case is_error_msg msg of
        Inl e \<Rightarrow> (Raised e, m)
      | Inr is_error \<Rightarrow>
          if is_error then restart_ticker fuel bm m
          else (case iterate msg of
                  Inl e \<Rightarrow> (Raised e, m)
                | Inr tickers \<Rightarrow> ticker_loop flt m tickers))"

subsection \<open>The user handler\<close>

definition set_balance :: "'f pyfloat \<Rightarrow> 'f manager \<Rightarrow> jv \<Rightarrow> error + 'f manager" where
  "set_balance flt m bal =
     bind_err (subscript bal ''f'') (\<lambda>f.
     bind_err (flt f) (\<lambda>v.
     bind_err (subscript bal ''a'') (\<lambda>k.
       if hashable k
       then Inr (m\<lparr>cache := (cache m)\<lparr>balances := (balances (cache m))(k \<mapsto> v)\<rparr>\<rparr>)
       else Inl TypeError)))"

fun balance_loop :: "'f pyfloat \<Rightarrow> 'f manager \<Rightarrow> jv list \<Rightarrow> unit outcome \<times> 'f manager" where
  "balance_loop flt m [] = (Returned (), m)"
| "balance_loop flt m (b # bs) =
     (case set_balance flt m b of
        Inl e \<Rightarrow> (Raised e, m)
      | Inr m' \<Rightarrow> balance_loop flt m' bs)"

definition restart_user :: "nat \<Rightarrow> transport \<Rightarrow> 'f manager \<Rightarrow> unit outcome \<times> 'f manager" where
  "restart_user fuel bm m =
     (let m2 = stop_socket (user_socket_conn_key m) m
      in case start_user_socket fuel bm m2 of
           (Returned k, m3) \<Rightarrow>
             (Returned (),
              emit (Clear Balances)
                (m3\<lparr>user_socket_conn_key := k,
                    cache := (cache m3)\<lparr>balances := Map.empty\<rparr>\<rparr>))
         | (Raised e, m3) \<Rightarrow> (Raised e, m3)
         | (OutOfFuel, m3) \<Rightarrow> (OutOfFuel, m3))"

definition delete_balance :: "'f manager \<Rightarrow> jv \<Rightarrow> unit outcome \<times> 'f manager" where
  "delete_balance m a =
     (if \<not> hashable a then (Raised TypeError, m)
      else (case balances (cache m) a of
              None \<Rightarrow> (Raised KeyError, m)
            | Some v \<Rightarrow>
                (Returned (),
                 m\<lparr>cache := (cache m)\<lparr>balances := (balances (cache m))(a := None)\<rparr>\<rparr>)))"

definition store_order :: "'f manager \<Rightarrow> 'f BinanceOrder \<Rightarrow> unit outcome \<times> 'f manager" where
  "store_order m order =
     (if hashable (id' order)
      then (Returned (),
            m\<lparr>cache := (cache m)\<lparr>orders := (orders (cache m))(id' order \<mapsto> order)\<rparr>\<rparr>)
      else (Raised TypeError, m))"

definition process_user_socket ::
  "'f pyfloat \<Rightarrow> nat \<Rightarrow> transport \<Rightarrow> 'f manager \<Rightarrow> jv \<Rightarrow> unit outcome \<times> 'f manager" where
  "process_user_socket flt fuel bm m0 msg =
     (let m = emit LogDebug m0 in
      case subscript msg ''e'' of
        Inl e \<Rightarrow> (Raised e, m)
      | Inr kind \<Rightarrow>
          if kind = S ''error'' then restart_user fuel bm m
          else if kind = S ''outboundAccountPosition'' then
            (case subscript msg ''B'' of
               Inl e \<Rightarrow> (Raised e, m)
             | Inr b \<Rightarrow>
                 (case iterate b of
                    Inl e \<Rightarrow> (Raised e, m)
                  | Inr bals \<Rightarrow> balance_loop flt m bals))
          else if kind = S ''balanceUpdate'' then
            (case subscript msg ''a'' of
               Inl e \<Rightarrow> (Raised e, m)
             | Inr a \<Rightarrow> delete_balance m a)
          else if kind = S ''executionReport'' then
            (case BinanceOrder_init flt msg of
               Inl e \<Rightarrow> (Raised e, m)
             | Inr order \<Rightarrow> store_order m order)
          else (Returned (), m))"

section \<open>Auxiliary notions for the proofs\<close>

text \<open>The events a start operation can cause: everything except a stop request and a clear.\<close>

fun start_event :: "event \<Rightarrow> bool" where
  "start_event (Stop k) = False"
| "start_event (Clear c) = False"
| "start_event LogDebug = True"
| "start_event (LogWarning n) = True"
| "start_event (LogInfo e) = True"
| "start_event (Sleep n) = True"
| "start_event (StartReq sb) = True"

text \<open>\<open>grows m m'\<close>: from \<open>m\<close> to \<open>m'\<close> the cache and the connection keys are kept, and
  the trace is extended by start events only.\<close>

definition grows :: "'f manager \<Rightarrow> 'f manager \<Rightarrow> bool" where
  "grows m m' \<longleftrightarrow>
     cache m' = cache m \<and>
     ticker_price_socket_conn_key m' = ticker_price_socket_conn_key m \<and>
     user_socket_conn_key m' = user_socket_conn_key m \<and>
     requests m \<le> requests m' \<and>
     (\<exists>es. trace m' = trace m @ es \<and> list_all start_event es)"

text \<open>A transport that answers \<open>False\<close> to every start request.\<close>

definition always_false :: transport where
  "always_false sb n = RFalse"

fun precedes :: "event \<Rightarrow> event \<Rightarrow> event list \<Rightarrow> bool" where
  "precedes a b [] = False"
| "precedes a b (x # xs) = (if x = a then True else if x = b then False else precedes a b xs)"

fun is_stop :: "event \<Rightarrow> bool" where
  "is_stop (Stop k) = True"
| "is_stop LogDebug = False"
| "is_stop (LogWarning n) = False"
| "is_stop (LogInfo e) = False"
| "is_stop (Sleep n) = False"
| "is_stop (StartReq sb) = False"
| "is_stop (Clear c) = False"

definition float_sample :: "rat pyfloat" where
  "float_sample v =
     (case v of
        S s \<Rightarrow> (case map_of [(''1.5'', 3 / 2), (''2'', 2), (''0.25'', 1 / 4)] s of
                  None \<Rightarrow> Inl ValueError | Some x \<Rightarrow> Inr x)
      | I n \<Rightarrow> Inr (of_int n)
      | L xs \<Rightarrow> Inl TypeError
      | D kvs \<Rightarrow> Inl TypeError)"

definition fresh :: "rat manager" where
  "fresh = \<lparr>cache = \<lparr>ticker_values = Map.empty, balances = Map.empty,
                      non_existent_tickers = {}, orders = Map.empty\<rparr>,
            ticker_price_socket_conn_key = None, user_socket_conn_key = None,
            requests = 0, trace = []\<rparr>"

definition ready :: transport where
  "ready sb n = (case sb of Ticker \<Rightarrow> Path ''!ticker@arr'' | User \<Rightarrow> Path ''listenkey'')"

definition error_msg :: jv where
  "error_msg = D [(''e'', S ''error''), (''m'', S ''stream error'')]"

text \<open>A manager in service: both subscriptions established, one price and one balance cached.\<close>

definition holding :: "rat manager" where
  "holding = \<lparr>cache = \<lparr>ticker_values = [S ''BTCUSDT'' \<mapsto> 2], balances = [S ''BTC'' \<mapsto> 1 / 4],
                        non_existent_tickers = {}, orders = Map.empty\<rparr>,
              ticker_price_socket_conn_key = Some ''!ticker@arr'',
              user_socket_conn_key = Some ''listenkey'',
              requests = 2, trace = []\<rparr>"

text \<open>A transport whose start requests all raise.\<close>

definition broken :: transport where
  "broken sb n = Fails TransportError"

text \<open>
  The pair an entry of a message array carries when it is well formed: the hashable key under
  field \<open>kf\<close> and the number that \<open>float\<close> makes of the value under field \<open>vf\<close>.
\<close>

definition entry_of :: "'f pyfloat \<Rightarrow> string \<Rightarrow> string \<Rightarrow> jv \<Rightarrow> (jv \<times> 'f) option" where
  "entry_of flt kf vf x =
     (case subscript x vf of
        Inl e \<Rightarrow> None
      | Inr c \<Rightarrow>
          (case flt c of
             Inl e \<Rightarrow> None
           | Inr v \<Rightarrow>
               (case subscript x kf of
                  Inl e \<Rightarrow> None
                | Inr k \<Rightarrow> if hashable k then Some (k, v) else None)))"

text \<open>The transport delivers the messages of a subscription in order; a fault ends the run.\<close>

fun deliver_ticker ::
  "'f pyfloat \<Rightarrow> nat \<Rightarrow> transport \<Rightarrow> 'f manager \<Rightarrow> jv list \<Rightarrow> unit outcome \<times> 'f manager" where
  "deliver_ticker flt fuel bm m [] = (Returned (), m)"
| "deliver_ticker flt fuel bm m (msg # msgs) =
     (case process_ticker_values flt fuel bm m msg of
        (Returned u, m') \<Rightarrow> deliver_ticker flt fuel bm m' msgs
      | (Raised e, m') \<Rightarrow> (Raised e, m')
      | (OutOfFuel, m') \<Rightarrow> (OutOfFuel, m'))"

text \<open>The event kinds the user handler knows.\<close>

definition known_kinds :: "jv list" where
  "known_kinds = [S ''error'', S ''outboundAccountPosition'', S ''balanceUpdate'',
                  S ''executionReport'']"

text \<open>Two execution reports of the same order.\<close>

definition report_new :: jv where
  "report_new = D [(''e'', S ''executionReport''), (''s'', S ''BTCUSDT''), (''S'', S ''BUY''),
                   (''o'', S ''LIMIT''), (''i'', I 4293153), (''Z'', S ''0.25''),
                   (''X'', S ''NEW''), (''p'', S ''2''), (''T'', I 1499405658657)]"

definition report_filled :: jv where
  "report_filled = D [(''e'', S ''executionReport''), (''s'', S ''BTCUSDT''), (''S'', S ''BUY''),
                      (''o'', S ''LIMIT''), (''i'', I 4293153), (''Z'', S ''1.5''),
                      (''X'', S ''FILLED''), (''p'', S ''2''), (''T'', I 1499405658700)]"

text \<open>Sample ticker updates and an account position.\<close>

definition upd_btc_2 :: jv where
  "upd_btc_2 = D [(''e'', S ''24hrTicker''), (''s'', S ''BTCUSDT''), (''c'', S ''2'')]"

definition upd_eth :: jv where
  "upd_eth = D [(''e'', S ''24hrTicker''), (''s'', S ''ETHUSDT''), (''c'', S ''0.25'')]"

definition upd_btc_15 :: jv where
  "upd_btc_15 = D [(''e'', S ''24hrTicker''), (''s'', S ''BTCUSDT''), (''c'', S ''1.5'')]"

definition upd_malformed :: jv where
  "upd_malformed = D [(''e'', S ''24hrTicker''), (''s'', S ''BNBUSDT''), (''c'', S ''n/a'')]"

definition position_msg :: jv where
  "position_msg =
     D [(''e'', S ''outboundAccountPosition''), (''E'', I 1564034571105),
        (''B'', L [D [(''a'', S ''ETH''), (''f'', S ''2''), (''l'', S ''0.25'')],
                   D [(''a'', S ''USDT''), (''f'', S ''1.5''), (''l'', S ''2'')]])]"

text \<open>A transport that answers \<open>False\<close> to the first start request and raises on all later ones.\<close>

definition false_then_fails :: transport where
  "false_then_fails sb n = (if n = 0 then RFalse else Fails TransportError)"

section \<open>The start operation\<close>

declare retry_loop.simps [simp del]

lemma bind_err_simps [simp]:
  "bind_err (Inl e) f = Inl e" "bind_err (Inr x) f = f x"
  by (simp_all add: bind_err_def)

lemma grows_refl: "grows m m"
  by (simp add: grows_def)

lemma grows_trans: "grows a b \<Longrightarrow> grows b c \<Longrightarrow> grows a c"
  by (auto simp: grows_def)

lemma grows_emit: "start_event ev \<Longrightarrow> grows m (emit ev m)"
  by (simp add: grows_def emit_def)

lemma grows_bm_start: "grows m (snd (bm_start bm sb m))"
  by (simp add: grows_def bm_start_def emit_def)

lemma retry_loop_grows:
  assumes f: "\<And>x. grows x (snd (func x))"
  shows "grows m (snd (retry_loop func attempts m))"
  using f
proof (induction func attempts m rule: retry_loop.induct)
  case (1 func attempts m)
  note f = "1.prems"
  show ?case
  proof (cases "attempts < 20")
    case False
    then show ?thesis by (simp add: retry_loop.simps [of func attempts m] grows_refl)
  next
    case True
    obtain r m' where fm: "func m = (r, m')" by (cases "func m")
    have g: "grows m m'" using f [of m] fm by simp
    show ?thesis
    proof (cases r)
      case (Returned v)
      then show ?thesis using True fm g by (simp add: retry_loop.simps [of func attempts m])
    next
      case OutOfFuel
      then show ?thesis using True fm g by (simp add: retry_loop.simps [of func attempts m])
    next
      case (Raised e)
      let ?m2 = "if attempts = 0 then emit (LogInfo e) (emit (LogWarning attempts) m')
                 else emit (LogWarning attempts) m'"
      have g2: "grows m' ?m2"
        using grows_emit [of "LogWarning attempts" m']
          grows_emit [of "LogInfo e" "emit (LogWarning attempts) m'"]
        by (auto intro: grows_trans)
      have ih: "grows ?m2 (snd (retry_loop func (attempts + 1) ?m2))"
        using "1.IH" [OF True fm [symmetric] Raised f] by simp
      have "retry_loop func attempts m = retry_loop func (attempts + 1) ?m2"
        using True fm Raised by (simp add: retry_loop.simps [of func attempts m])
      then show ?thesis using g g2 ih by (metis grows_trans)
    qed
  qed
qed

lemma retry_grows:
  assumes f: "\<And>x. grows x (snd (func x))"
  shows "grows m (snd (retry func m))"
proof -
  have "grows m (emit (Sleep 1) m)" by (simp add: grows_emit)
  moreover have "grows (emit (Sleep 1) m) (snd (retry_loop func 0 (emit (Sleep 1) m)))"
    using f by (rule retry_loop_grows)
  ultimately show ?thesis by (simp add: retry_def) (metis grows_trans)
qed

lemma start_socket_grows: "grows m (snd (start_socket fuel bm sb m))"
proof (induction fuel arbitrary: m)
  case 0
  show ?case by (simp add: grows_refl)
next
  case (Suc fuel)
  obtain r m1 where b: "bm_start bm sb (emit LogDebug m) = (r, m1)"
    by (cases "bm_start bm sb (emit LogDebug m)")
  have g1: "grows m m1"
    using grows_bm_start [of "emit LogDebug m" bm sb] b grows_emit [of LogDebug m]
    by (auto intro: grows_trans)
  have g2: "grows m1 (snd (retry (start_socket fuel bm sb) m1))"
    using Suc.IH by (rule retry_grows)
  show ?case using b g1 g2
    by (cases r) (auto intro: grows_trans)
qed

lemma start_socket_no_answer:
  "fst (start_socket fuel always_false sb m) = OutOfFuel \<and>
   requests (snd (start_socket fuel always_false sb m)) = requests m + fuel"
proof (induction fuel arbitrary: m)
  case 0
  show ?case by simp
next
  case (Suc fuel)
  let ?m1 = "emit (Sleep 1) (emit (StartReq sb)
               ((emit LogDebug m)\<lparr>requests := Suc (requests (emit LogDebug m))\<rparr>))"
  have r: "requests ?m1 = Suc (requests m)" by (simp add: emit_def)
  obtain m2 where s: "start_socket fuel always_false sb ?m1 = (OutOfFuel, m2)"
    and q: "requests m2 = requests ?m1 + fuel"
    using Suc.IH [of ?m1] by (cases "start_socket fuel always_false sb ?m1") auto
  have "start_socket (Suc fuel) always_false sb m = (OutOfFuel, m2)"
    using s by (simp add: bm_start_def always_false_def retry_def retry_loop.simps)
  then show ?case using q r by simp
qed

text \<open>
  C1. When the transport answers \<open>False\<close> to every start request, neither start operation
  stops after 20 attempts and neither returns \<open>None\<close>: whatever depth of recursion is
  allowed, the run goes deeper, and it has sent one start request per level, so a 21st request
  as soon as the depth allowed is above 20.
\<close>

theorem start_never_returns_on_false:
  "fst (start_ticker_values_socket fuel always_false m) = OutOfFuel \<and>
   requests (snd (start_ticker_values_socket fuel always_false m)) = requests m + fuel \<and>
   fst (start_user_socket fuel always_false m) = OutOfFuel \<and>
   requests (snd (start_user_socket fuel always_false m)) = requests m + fuel"
  using start_socket_no_answer [of fuel Ticker m] start_socket_no_answer [of fuel User m]
  by (simp add: start_ticker_values_socket_def start_user_socket_def)

lemma start_socket_Suc_grows:
  "grows (snd (bm_start bm sb (emit LogDebug m))) (snd (start_socket (Suc fuel) bm sb m))"
proof -
  obtain r m1 where b: "bm_start bm sb (emit LogDebug m) = (r, m1)"
    by (cases "bm_start bm sb (emit LogDebug m)")
  have g: "grows m1 (snd (retry (start_socket fuel bm sb) m1))"
    by (rule retry_grows) (rule start_socket_grows)
  show ?thesis using b g by (cases r) (auto intro: grows_refl)
qed

lemma start_socket_first:
  assumes "start_socket fuel bm sb m = (r, m')" and "r \<noteq> OutOfFuel"
  shows "\<exists>es. trace m' = trace m @ LogDebug # StartReq sb # es \<and> list_all start_event es"
proof (cases fuel)
  case 0
  with assms show ?thesis by simp
next
  case (Suc f)
  have "grows (snd (bm_start bm sb (emit LogDebug m))) m'"
    using start_socket_Suc_grows [of bm sb m f] assms(1) Suc by simp
  then show ?thesis
    by (auto simp: grows_def bm_start_def emit_def)
qed

lemma subscript_contains: "subscript msg k = Inr v \<Longrightarrow> contains k msg = Inr True"
  by (cases msg) (auto split: option.splits dest: map_of_SomeD intro: rev_image_eqI)

lemma error_msg_is_error:
  "subscript msg ''e'' = Inr (S ''error'') \<Longrightarrow> is_error_msg msg = Inr True"
  by (simp add: is_error_msg_def subscript_contains)

lemma restart_ticker_Returned:
  assumes "restart_ticker fuel bm m = (Returned u, m')"
  shows "\<exists>k m3. start_socket fuel bm Ticker
                  (emit (Stop (ticker_price_socket_conn_key m)) (emit LogDebug m)) = (Returned k, m3) \<and>
           m' = emit (Clear TickerValues)
                  (m3\<lparr>ticker_price_socket_conn_key := k,
                      cache := (cache m3)\<lparr>ticker_values := Map.empty\<rparr>\<rparr>)"
  using assms
  by (auto simp: restart_ticker_def Let_def start_ticker_values_socket_def stop_socket_def emit_def
      split: prod.splits outcome.splits)

lemma restart_user_Returned:
  assumes "restart_user fuel bm m = (Returned u, m')"
  shows "\<exists>k m3. start_socket fuel bm User
                  (emit (Stop (user_socket_conn_key m)) m) = (Returned k, m3) \<and>
           m' = emit (Clear Balances)
                  (m3\<lparr>user_socket_conn_key := k,
                      cache := (cache m3)\<lparr>balances := Map.empty\<rparr>\<rparr>)"
  using assms
  by (auto simp: restart_user_def Let_def start_user_socket_def stop_socket_def emit_def
      split: prod.splits outcome.splits)

lemma restart_ticker_Raised:
  assumes "restart_ticker fuel bm m = (Raised e, m')"
  shows "cache m' = cache m"
proof -
  let ?m2 = "emit (Stop (ticker_price_socket_conn_key m)) (emit LogDebug m)"
  have "start_socket fuel bm Ticker ?m2 = (Raised e, m')"
    using assms
    by (auto simp: restart_ticker_def Let_def start_ticker_values_socket_def stop_socket_def emit_def
        split: prod.splits outcome.splits)
  then have "grows ?m2 m'" using start_socket_grows [of ?m2 fuel bm Ticker] by simp
  then show ?thesis by (simp add: grows_def emit_def)
qed

lemma restart_user_Raised:
  assumes "restart_user fuel bm m = (Raised e, m')"
  shows "cache m' = cache m"
proof -
  let ?m2 = "emit (Stop (user_socket_conn_key m)) m"
  have "start_socket fuel bm User ?m2 = (Raised e, m')"
    using assms
    by (auto simp: restart_user_def Let_def start_user_socket_def stop_socket_def emit_def
        split: prod.splits outcome.splits)
  then have "grows ?m2 m'" using start_socket_grows [of ?m2 fuel bm User] by simp
  then show ?thesis by (simp add: grows_def emit_def)
qed

lemma restart_ticker_trace:
  assumes "restart_ticker fuel bm m = (Returned u, m')"
  shows "\<exists>es. trace m' = trace m @ [LogDebug, Stop (ticker_price_socket_conn_key m)] @
                  (LogDebug # StartReq Ticker # es) @ [Clear TickerValues] \<and>
              list_all start_event es"
proof -
  let ?m2 = "emit (Stop (ticker_price_socket_conn_key m)) (emit LogDebug m)"
  obtain k m3 where s: "start_socket fuel bm Ticker ?m2 = (Returned k, m3)"
    and m': "m' = emit (Clear TickerValues)
                  (m3\<lparr>ticker_price_socket_conn_key := k,
                      cache := (cache m3)\<lparr>ticker_values := Map.empty\<rparr>\<rparr>)"
    using restart_ticker_Returned [OF assms] by blast
  obtain es where "trace m3 = trace ?m2 @ LogDebug # StartReq Ticker # es"
    and "list_all start_event es"
    using start_socket_first [OF s] by auto
  then show ?thesis using m' by (auto simp: emit_def)
qed

lemma restart_user_trace:
  assumes "restart_user fuel bm m = (Returned u, m')"
  shows "\<exists>es. trace m' = trace m @ [Stop (user_socket_conn_key m)] @
                  (LogDebug # StartReq User # es) @ [Clear Balances] \<and>
              list_all start_event es"
proof -
  let ?m2 = "emit (Stop (user_socket_conn_key m)) m"
  obtain k m3 where s: "start_socket fuel bm User ?m2 = (Returned k, m3)"
    and m': "m' = emit (Clear Balances)
                  (m3\<lparr>user_socket_conn_key := k,
                      cache := (cache m3)\<lparr>balances := Map.empty\<rparr>\<rparr>)"
    using restart_user_Returned [OF assms] by blast
  obtain es where "trace m3 = trace ?m2 @ LogDebug # StartReq User # es"
    and "list_all start_event es"
    using start_socket_first [OF s] by auto
  then show ?thesis using m' by (auto simp: emit_def)
qed

lemma process_ticker_values_error:
  "subscript msg ''e'' = Inr (S ''error'') \<Longrightarrow>
   process_ticker_values flt fuel bm m msg = restart_ticker fuel bm m"
  by (simp add: process_ticker_values_def error_msg_is_error)

lemma process_user_socket_error:
  "subscript msg ''e'' = Inr (S ''error'') \<Longrightarrow>
   process_user_socket flt fuel bm m msg = restart_user fuel bm (emit LogDebug m)"
  by (simp add: process_user_socket_def Let_def)

section \<open>Recovery from an in-band error\<close>

text \<open>
  C2, as the claim states it, fails: on an error message the handler stops the handle, then
  restarts the subscription, and clears the cache collection last. In the run below the start
  request precedes the clear, not the clear the start request; and when the restart raises,
  the stop and the start request have happened and the cached price is still there.
\<close>

theorem clear_precedes_restart_counterexample:
  "\<not> precedes (Clear TickerValues) (StartReq Ticker)
       (trace (snd (process_ticker_values float_sample 1 ready holding error_msg))) \<and>
   trace (snd (process_ticker_values float_sample 1 ready holding error_msg)) =
     [LogDebug, Stop (Some ''!ticker@arr''), LogDebug, StartReq Ticker, Clear TickerValues] \<and>
   trace (snd (process_user_socket float_sample 1 ready holding error_msg)) =
     [LogDebug, Stop (Some ''listenkey''), LogDebug, StartReq User, Clear Balances] \<and>
   fst (process_ticker_values float_sample 1 broken holding error_msg) = Raised TransportError \<and>
   trace (snd (process_ticker_values float_sample 1 broken holding error_msg)) =
     [LogDebug, Stop (Some ''!ticker@arr''), LogDebug, StartReq Ticker] \<and>
   ticker_values (cache (snd (process_ticker_values float_sample 1 broken holding error_msg)))
     (S ''BTCUSDT'') = Some 2"
  by code_simp

text \<open>
  C2, amended. For every in-band error message on either subscription, a handler that returns
  has stopped the current handle, then run the start operation for the same subscription
  (whose events follow the stop request and contain no stop and no clear), and cleared the
  corresponding cache collection last: the restart precedes the clear. When the restart
  raises, the cache is left as it was.
\<close>

theorem restart_precedes_clear:
  assumes "subscript msg ''e'' = Inr (S ''error'')"
  shows "(process_ticker_values flt fuel bm m msg = (Returned (), m') \<longrightarrow>
            (\<exists>es. trace m' = trace m @ [LogDebug, Stop (ticker_price_socket_conn_key m)] @
                      (LogDebug # StartReq Ticker # es) @ [Clear TickerValues] \<and>
                   list_all start_event es)) \<and>
         (process_user_socket flt fuel bm m msg = (Returned (), m'') \<longrightarrow>
            (\<exists>es. trace m'' = trace m @ [LogDebug, Stop (user_socket_conn_key m)] @
                      (LogDebug # StartReq User # es) @ [Clear Balances] \<and>
                   list_all start_event es)) \<and>
         (process_ticker_values flt fuel bm m msg = (Raised e, m') \<longrightarrow> cache m' = cache m) \<and>
         (process_user_socket flt fuel bm m msg = (Raised e, m'') \<longrightarrow> cache m'' = cache m)"
proof (intro conjI impI)
  assume "process_ticker_values flt fuel bm m msg = (Returned (), m')"
  then have "restart_ticker fuel bm m = (Returned (), m')"
    using assms by (simp add: process_ticker_values_error)
  then show "\<exists>es. trace m' = trace m @ [LogDebug, Stop (ticker_price_socket_conn_key m)] @
                      (LogDebug # StartReq Ticker # es) @ [Clear TickerValues] \<and>
                   list_all start_event es"
    by (rule restart_ticker_trace)
next
  assume "process_user_socket flt fuel bm m msg = (Returned (), m'')"
  then have "restart_user fuel bm (emit LogDebug m) = (Returned (), m'')"
    using assms by (simp add: process_user_socket_error)
  from restart_user_trace [OF this]
  show "\<exists>es. trace m'' = trace m @ [LogDebug, Stop (user_socket_conn_key m)] @
                      (LogDebug # StartReq User # es) @ [Clear Balances] \<and>
                   list_all start_event es"
    by (simp add: emit_def)
next
  assume "process_ticker_values flt fuel bm m msg = (Raised e, m')"
  then have "restart_ticker fuel bm m = (Raised e, m')"
    using assms by (simp add: process_ticker_values_error)
  then show "cache m' = cache m" by (rule restart_ticker_Raised)
next
  assume "process_user_socket flt fuel bm m msg = (Raised e, m'')"
  then have "restart_user fuel bm (emit LogDebug m) = (Raised e, m'')"
    using assms by (simp add: process_user_socket_error)
  from restart_user_Raised [OF this] show "cache m'' = cache m" by (simp add: emit_def)
qed

theorem restart_precedes_clear_witness:
  "subscript error_msg ''e'' = Inr (S ''error'') \<and>
   fst (process_ticker_values float_sample 1 ready holding error_msg) = Returned () \<and>
   (\<exists>es. trace (snd (process_ticker_values float_sample 1 ready holding error_msg)) =
           trace holding @ [LogDebug, Stop (ticker_price_socket_conn_key holding)] @
             (LogDebug # StartReq Ticker # es) @ [Clear TickerValues] \<and>
          list_all start_event es) \<and>
   fst (process_user_socket float_sample 1 ready holding error_msg) = Returned () \<and>
   (\<exists>es. trace (snd (process_user_socket float_sample 1 ready holding error_msg)) =
           trace holding @ [LogDebug, Stop (user_socket_conn_key holding)] @
             (LogDebug # StartReq User # es) @ [Clear Balances] \<and>
          list_all start_event es)"
proof -
  have h: "subscript error_msg ''e'' = Inr (S ''error'')" by code_simp
  have t: "fst (process_ticker_values float_sample 1 ready holding error_msg) = Returned ()"
    by code_simp
  have u: "fst (process_user_socket float_sample 1 ready holding error_msg) = Returned ()"
    by code_simp
  have t': "process_ticker_values float_sample 1 ready holding error_msg =
      (Returned (), snd (process_ticker_values float_sample 1 ready holding error_msg))"
    using t by (metis prod.collapse)
  have u': "process_user_socket float_sample 1 ready holding error_msg =
      (Returned (), snd (process_user_socket float_sample 1 ready holding error_msg))"
    using u by (metis prod.collapse)
  show ?thesis
    using restart_precedes_clear [OF h, of float_sample 1 ready holding
        "snd (process_ticker_values float_sample 1 ready holding error_msg)"
        "snd (process_user_socket float_sample 1 ready holding error_msg)"]
      h t u t' u' by blast
qed

text \<open>
  C7. On a ticker message carrying the error indicator, a handler that returns leaves the
  ticker-price cache empty and has issued exactly one stop request, followed by one run of
  the start operation. When the transport answers the next start request with a connection
  key, the handler does return, after exactly one start request, and keeps that key.
\<close>

theorem ticker_error_clears_cache_one_restart:
  assumes "subscript msg ''e'' = Inr (S ''error'')"
  shows "(process_ticker_values flt fuel bm m msg = (Returned (), m') \<longrightarrow>
            ticker_values (cache m') = Map.empty \<and>
            length (filter is_stop (drop (length (trace m)) (trace m'))) = 1 \<and>
            StartReq Ticker \<in> set (drop (length (trace m)) (trace m'))) \<and>
         (0 < fuel \<and> bm Ticker (requests m) = Path p \<and> p \<noteq> [] \<longrightarrow>
            (\<exists>m2. process_ticker_values flt fuel bm m msg = (Returned (), m2) \<and>
                  trace m2 = trace m @ [LogDebug, Stop (ticker_price_socket_conn_key m),
                                         LogDebug, StartReq Ticker, Clear TickerValues] \<and>
                  ticker_price_socket_conn_key m2 = Some p \<and>
                  ticker_values (cache m2) = Map.empty))"
proof (intro conjI impI)
  assume r: "process_ticker_values flt fuel bm m msg = (Returned (), m')"
  then have rt: "restart_ticker fuel bm m = (Returned (), m')"
    using assms by (simp add: process_ticker_values_error)
  from restart_ticker_Returned [OF rt]
  show "ticker_values (cache m') = Map.empty" by (auto simp: emit_def)
  obtain es where tr: "trace m' = trace m @ [LogDebug, Stop (ticker_price_socket_conn_key m)] @
                      (LogDebug # StartReq Ticker # es) @ [Clear TickerValues]"
    and es: "list_all start_event es"
    using restart_ticker_trace [OF rt] by blast
  have "filter is_stop es = []"
    using es by (induction es) (auto elim: start_event.elims)
  then show "length (filter is_stop (drop (length (trace m)) (trace m'))) = 1"
    using tr by simp
  show "StartReq Ticker \<in> set (drop (length (trace m)) (trace m'))"
    using tr by simp
next
  assume a: "0 < fuel \<and> bm Ticker (requests m) = Path p \<and> p \<noteq> []"
  then obtain f where f: "fuel = Suc f" by (cases fuel) auto
  show "\<exists>m2. process_ticker_values flt fuel bm m msg = (Returned (), m2) \<and>
             trace m2 = trace m @ [LogDebug, Stop (ticker_price_socket_conn_key m),
                                    LogDebug, StartReq Ticker, Clear TickerValues] \<and>
             ticker_price_socket_conn_key m2 = Some p \<and>
             ticker_values (cache m2) = Map.empty"
    using assms a
    by (simp add: process_ticker_values_error restart_ticker_def Let_def f
        start_ticker_values_socket_def stop_socket_def bm_start_def emit_def)
qed

theorem ticker_error_clears_cache_one_restart_witness:
  "subscript error_msg ''e'' = Inr (S ''error'') \<and>
   (0::nat) < 1 \<and> ready Ticker (requests holding) = Path ''!ticker@arr'' \<and>
   ''!ticker@arr'' \<noteq> [] \<and>
   (\<exists>m2. process_ticker_values float_sample 1 ready holding error_msg = (Returned (), m2) \<and>
         trace m2 = trace holding @ [LogDebug, Stop (ticker_price_socket_conn_key holding),
                                      LogDebug, StartReq Ticker, Clear TickerValues] \<and>
         ticker_price_socket_conn_key m2 = Some ''!ticker@arr'' \<and>
         ticker_values (cache m2) = Map.empty)"
proof -
  have h: "subscript error_msg ''e'' = Inr (S ''error'')" by code_simp
  have b: "ready Ticker (requests holding) = Path ''!ticker@arr''" by code_simp
  show ?thesis
    using ticker_error_clears_cache_one_restart [OF h, of float_sample 1 ready holding _
        "''!ticker@arr''"] h b
    by simp
qed

section \<open>The user handler: balance updates and unknown kinds\<close>

text \<open>
  C3. A \<open>balanceUpdate\<close> event naming an asset that is in the balances map returns with the
  asset's key absent; naming an asset that is not in the map it raises \<open>KeyError\<close>. The
  entries of all other assets are as before in both cases.
\<close>

theorem balanceUpdate_removes_or_raises:
  assumes "subscript msg ''e'' = Inr (S ''balanceUpdate'')"
    and "subscript msg ''a'' = Inr a"
    and "hashable a"
  shows "(a \<in> dom (balances (cache m)) \<longrightarrow>
            (\<exists>m'. process_user_socket flt fuel bm m msg = (Returned (), m') \<and>
                  a \<notin> dom (balances (cache m')) \<and>
                  (\<forall>k. k \<noteq> a \<longrightarrow> balances (cache m') k = balances (cache m) k))) \<and>
         (a \<notin> dom (balances (cache m)) \<longrightarrow>
            (\<exists>m'. process_user_socket flt fuel bm m msg = (Raised KeyError, m') \<and>
                  balances (cache m') = balances (cache m)))"
  using assms
  by (auto simp: process_user_socket_def Let_def delete_balance_def emit_def)

theorem balanceUpdate_removes_or_raises_witness:
  "subscript (D [(''e'', S ''balanceUpdate''), (''a'', S ''BTC'')]) ''e'' = Inr (S ''balanceUpdate'') \<and>
   subscript (D [(''e'', S ''balanceUpdate''), (''a'', S ''BTC'')]) ''a'' = Inr (S ''BTC'') \<and>
   hashable (S ''BTC'') \<and>
   S ''BTC'' \<in> dom (balances (cache holding)) \<and>
   S ''BTC'' \<notin> dom (balances (cache fresh)) \<and>
   (\<exists>m'. process_user_socket float_sample 0 ready holding
            (D [(''e'', S ''balanceUpdate''), (''a'', S ''BTC'')]) = (Returned (), m') \<and>
         S ''BTC'' \<notin> dom (balances (cache m')) \<and>
         (\<forall>k. k \<noteq> S ''BTC'' \<longrightarrow> balances (cache m') k = balances (cache holding) k)) \<and>
   (\<exists>m'. process_user_socket float_sample 0 ready fresh
            (D [(''e'', S ''balanceUpdate''), (''a'', S ''BTC'')]) = (Raised KeyError, m') \<and>
         balances (cache m') = balances (cache fresh))"
proof -
  let ?msg = "D [(''e'', S ''balanceUpdate''), (''a'', S ''BTC'')]"
  have e: "subscript ?msg ''e'' = Inr (S ''balanceUpdate'')" by simp
  have a: "subscript ?msg ''a'' = Inr (S ''BTC'')" by simp
  have h: "hashable (S ''BTC'')" by simp
  have p: "S ''BTC'' \<in> dom (balances (cache holding))" by (simp add: holding_def)
  have q: "S ''BTC'' \<notin> dom (balances (cache fresh))" by (simp add: fresh_def)
  show ?thesis
    using balanceUpdate_removes_or_raises [OF e a h, of holding float_sample 0 ready]
      balanceUpdate_removes_or_raises [OF e a h, of fresh float_sample 0 ready]
      e a h p q
    by blast
qed

text \<open>
  C10. A user message without the field \<open>e\<close> raises \<open>KeyError\<close> (after the debug log, the
  cache untouched); a message whose \<open>e\<close> is none of the known kinds is a no-op that returns.
\<close>

theorem user_message_without_kind_raises:
  "(map_of kvs ''e'' = None \<longrightarrow>
      process_user_socket flt fuel bm m (D kvs) = (Raised KeyError, emit LogDebug m)) \<and>
   (map_of kvs ''e'' = Some kind \<and> kind \<notin> set known_kinds \<longrightarrow>
      process_user_socket flt fuel bm m (D kvs) = (Returned (), emit LogDebug m))"
  by (auto simp: process_user_socket_def Let_def known_kinds_def)

theorem user_message_without_kind_raises_witness:
  "map_of [(''a'', S ''BTC'')] ''e'' = None \<and>
   process_user_socket float_sample 0 ready holding (D [(''a'', S ''BTC'')]) =
     (Raised KeyError, emit LogDebug holding) \<and>
   map_of [(''e'', S ''listStatus''), (''a'', S ''BTC'')] ''e'' = Some (S ''listStatus'') \<and>
   S ''listStatus'' \<notin> set known_kinds \<and>
   process_user_socket float_sample 0 ready holding (D [(''e'', S ''listStatus''), (''a'', S ''BTC'')]) =
     (Returned (), emit LogDebug holding)"
proof -
  have n: "map_of [(''a'', S ''BTC'')] ''e'' = None" by simp
  have s: "map_of [(''e'', S ''listStatus''), (''a'', S ''BTC'')] ''e'' = Some (S ''listStatus'')"
    by simp
  have k: "S ''listStatus'' \<notin> set known_kinds" by (simp add: known_kinds_def)
  show ?thesis
    using user_message_without_kind_raises [where kvs = "[(''a'', S ''BTC'')]"
        and flt = float_sample and fuel = 0 and bm = ready and m = holding]
      user_message_without_kind_raises [where kvs = "[(''e'', S ''listStatus''), (''a'', S ''BTC'')]"
        and kind = "S ''listStatus''" and flt = float_sample and fuel = 0 and bm = ready
        and m = holding]
      n s k
    by blast
qed

section \<open>Orders\<close>

lemma set_ticker_orders:
  "set_ticker flt m t = Inr m' \<Longrightarrow> orders (cache m') = orders (cache m)"
  by (auto simp: set_ticker_def bind_err_def split: sum.splits if_splits)

lemma ticker_loop_orders:
  "orders (cache (snd (ticker_loop flt m ts))) = orders (cache m)"
  by (induction ts arbitrary: m) (auto split: sum.splits dest: set_ticker_orders)

lemma set_balance_orders:
  "set_balance flt m b = Inr m' \<Longrightarrow> orders (cache m') = orders (cache m)"
  by (auto simp: set_balance_def bind_err_def split: sum.splits if_splits)

lemma balance_loop_orders:
  "orders (cache (snd (balance_loop flt m bs))) = orders (cache m)"
  by (induction bs arbitrary: m) (auto split: sum.splits dest: set_balance_orders)

lemma restart_ticker_orders:
  "orders (cache (snd (restart_ticker fuel bm m))) = orders (cache m)"
proof -
  let ?m2 = "stop_socket (ticker_price_socket_conn_key (emit LogDebug m)) (emit LogDebug m)"
  have "grows ?m2 (snd (start_socket fuel bm Ticker ?m2))" by (rule start_socket_grows)
  then have "cache (snd (start_socket fuel bm Ticker ?m2)) = cache m"
    by (simp add: grows_def stop_socket_def emit_def)
  then show ?thesis
    by (cases "start_socket fuel bm Ticker ?m2")
      (auto simp: restart_ticker_def Let_def start_ticker_values_socket_def emit_def
        split: outcome.splits)
qed

lemma restart_user_orders:
  "orders (cache (snd (restart_user fuel bm m))) = orders (cache m)"
proof -
  let ?m2 = "stop_socket (user_socket_conn_key m) m"
  have "grows ?m2 (snd (start_socket fuel bm User ?m2))" by (rule start_socket_grows)
  then have "cache (snd (start_socket fuel bm User ?m2)) = cache m"
    by (simp add: grows_def stop_socket_def emit_def)
  then show ?thesis
    by (cases "start_socket fuel bm User ?m2")
      (auto simp: restart_user_def Let_def start_user_socket_def emit_def
        split: outcome.splits)
qed

lemma process_ticker_values_orders:
  "orders (cache (snd (process_ticker_values flt fuel bm m msg))) = orders (cache m)"
  by (auto simp: process_ticker_values_def restart_ticker_orders ticker_loop_orders
      split: sum.splits)

lemma delete_balance_orders:
  "orders (cache (snd (delete_balance m a))) = orders (cache m)"
  by (simp add: delete_balance_def split: option.splits)

lemma store_order_orders:
  "dom (orders (cache m)) \<subseteq> dom (orders (cache (snd (store_order m order))))"
  by (auto simp: store_order_def)

lemma process_user_socket_orders:
  "dom (orders (cache m)) \<subseteq> dom (orders (cache (snd (process_user_socket flt fuel bm m msg))))"
proof -
  let ?m = "emit LogDebug m"
  have c: "orders (cache ?m) = orders (cache m)" by (simp add: emit_def)
  show ?thesis
  proof (cases "subscript msg ''e''")
    case (Inl e)
    then show ?thesis by (simp add: process_user_socket_def Let_def c)
  next
    case (Inr kind)
    consider (err) "kind = S ''error''"
      | (pos) "kind = S ''outboundAccountPosition''"
      | (upd) "kind = S ''balanceUpdate''"
      | (rep) "kind = S ''executionReport''"
      | (other) "kind \<noteq> S ''error''" "kind \<noteq> S ''outboundAccountPosition''"
          "kind \<noteq> S ''balanceUpdate''" "kind \<noteq> S ''executionReport''"
      by blast
    then show ?thesis
    proof cases
      case err
      then have "process_user_socket flt fuel bm m msg = restart_user fuel bm ?m"
        using Inr by (simp add: process_user_socket_def Let_def)
      then show ?thesis by (simp add: restart_user_orders c)
    next
      case pos
      then have p: "process_user_socket flt fuel bm m msg =
          (case subscript msg ''B'' of
             Inl e \<Rightarrow> (Raised e, ?m)
           | Inr b \<Rightarrow> (case iterate b of
                         Inl e \<Rightarrow> (Raised e, ?m)
                       | Inr bals \<Rightarrow> balance_loop flt ?m bals))"
        using Inr by (simp add: process_user_socket_def Let_def)
      show ?thesis unfolding p
        by (simp add: balance_loop_orders c split: sum.splits)
    next
      case upd
      then have p: "process_user_socket flt fuel bm m msg =
          (case subscript msg ''a'' of
             Inl e \<Rightarrow> (Raised e, ?m)
           | Inr a \<Rightarrow> delete_balance ?m a)"
        using Inr by (simp add: process_user_socket_def Let_def)
      show ?thesis unfolding p
        by (simp add: delete_balance_orders c split: sum.splits)
    next
      case rep
      then have p: "process_user_socket flt fuel bm m msg =
          (case BinanceOrder_init flt msg of
             Inl e \<Rightarrow> (Raised e, ?m)
           | Inr order \<Rightarrow> store_order ?m order)"
        using Inr by (simp add: process_user_socket_def Let_def)
      show ?thesis unfolding p
        using store_order_orders [of ?m] by (simp add: c split: sum.splits)
    next
      case other
      then have "process_user_socket flt fuel bm m msg = (Returned (), ?m)"
        using Inr by (simp add: process_user_socket_def Let_def)
      then show ?thesis by (simp add: c)
    qed
  qed
qed
text \<open>
  C5. Two \<open>executionReport\<close> events with the same order id, processed in order, leave under
  that id the record built from the second event (so the first one, where it differs, is no
  longer there) and every other order as it was. No handler removes an order: whatever the
  message and the outcome, every id in the orders map before is in it afterwards.
\<close>

theorem executionReport_overwrites:
  "(subscript e1 ''e'' = Inr (S ''executionReport'') \<and>
    subscript e2 ''e'' = Inr (S ''executionReport'') \<and>
    BinanceOrder_init flt e1 = Inr o1 \<and> BinanceOrder_init flt e2 = Inr o2 \<and>
    id' o1 = i \<and> id' o2 = i \<and> hashable i \<longrightarrow>
      (\<exists>m1 m2. process_user_socket flt fuel bm m e1 = (Returned (), m1) \<and>
                orders (cache m1) i = Some o1 \<and>
                process_user_socket flt fuel bm m1 e2 = (Returned (), m2) \<and>
                orders (cache m2) i = Some o2 \<and>
                (o1 \<noteq> o2 \<longrightarrow> orders (cache m2) i \<noteq> Some o1) \<and>
                (\<forall>k. k \<noteq> i \<longrightarrow> orders (cache m2) k = orders (cache m) k))) \<and>
   dom (orders (cache m)) \<subseteq> dom (orders (cache (snd (process_user_socket flt fuel bm m msg)))) \<and>
   dom (orders (cache m)) \<subseteq> dom (orders (cache (snd (process_ticker_values flt fuel bm m msg))))"
proof (intro conjI impI)
  assume a: "subscript e1 ''e'' = Inr (S ''executionReport'') \<and>
    subscript e2 ''e'' = Inr (S ''executionReport'') \<and>
    BinanceOrder_init flt e1 = Inr o1 \<and> BinanceOrder_init flt e2 = Inr o2 \<and>
    id' o1 = i \<and> id' o2 = i \<and> hashable i"
  let ?m1 = "(emit LogDebug m)\<lparr>cache := (cache m)\<lparr>orders := (orders (cache m))(i \<mapsto> o1)\<rparr>\<rparr>"
  let ?m2 = "(emit LogDebug ?m1)\<lparr>cache := (cache ?m1)\<lparr>orders := (orders (cache ?m1))(i \<mapsto> o2)\<rparr>\<rparr>"
  have 1: "process_user_socket flt fuel bm m e1 = (Returned (), ?m1)"
    using a by (simp add: process_user_socket_def Let_def store_order_def emit_def)
  have 2: "process_user_socket flt fuel bm ?m1 e2 = (Returned (), ?m2)"
    using a by (simp add: process_user_socket_def Let_def store_order_def emit_def)
  have 3: "orders (cache ?m1) i = Some o1" by (simp add: emit_def)
  have 4: "orders (cache ?m2) i = Some o2" by (simp add: emit_def)
  have 5: "\<forall>k. k \<noteq> i \<longrightarrow> orders (cache ?m2) k = orders (cache m) k" by (simp add: emit_def)
  show "\<exists>m1 m2. process_user_socket flt fuel bm m e1 = (Returned (), m1) \<and>
                orders (cache m1) i = Some o1 \<and>
                process_user_socket flt fuel bm m1 e2 = (Returned (), m2) \<and>
                orders (cache m2) i = Some o2 \<and>
                (o1 \<noteq> o2 \<longrightarrow> orders (cache m2) i \<noteq> Some o1) \<and>
                (\<forall>k. k \<noteq> i \<longrightarrow> orders (cache m2) k = orders (cache m) k)"
    using 1 2 3 4 5 by (metis option.inject)
next
  show "dom (orders (cache m)) \<subseteq> dom (orders (cache (snd (process_user_socket flt fuel bm m msg))))"
    by (rule process_user_socket_orders)
next
  show "dom (orders (cache m)) \<subseteq> dom (orders (cache (snd (process_ticker_values flt fuel bm m msg))))"
    by (simp add: process_ticker_values_orders)
qed

lemma order_of_report_new:
  "BinanceOrder_init float_sample report_new =
     Inr \<lparr>event = report_new, symbol = S ''BTCUSDT'', side = S ''BUY'', order_type = S ''LIMIT'',
          id' = I 4293153, cumulative_quote_qty = 1 / 4, status = S ''NEW'', price = 2,
          transaction_time = I 1499405658657\<rparr>"
  by (simp add: BinanceOrder_init_def report_new_def float_sample_def)

lemma order_of_report_filled:
  "BinanceOrder_init float_sample report_filled =
     Inr \<lparr>event = report_filled, symbol = S ''BTCUSDT'', side = S ''BUY'', order_type = S ''LIMIT'',
          id' = I 4293153, cumulative_quote_qty = 3 / 2, status = S ''FILLED'', price = 2,
          transaction_time = I 1499405658700\<rparr>"
  by (simp add: BinanceOrder_init_def report_filled_def float_sample_def)

theorem executionReport_overwrites_witness:
  "subscript report_new ''e'' = Inr (S ''executionReport'') \<and>
   subscript report_filled ''e'' = Inr (S ''executionReport'') \<and>
   hashable (I 4293153) \<and>
   (\<exists>o1 o2. BinanceOrder_init float_sample report_new = Inr o1 \<and>
             BinanceOrder_init float_sample report_filled = Inr o2 \<and>
             id' o1 = I 4293153 \<and> id' o2 = I 4293153 \<and> status o1 = S ''NEW'' \<and>
             status o2 = S ''FILLED'' \<and>
      (\<exists>m1 m2. process_user_socket float_sample 0 ready fresh report_new = (Returned (), m1) \<and>
                orders (cache m1) (I 4293153) = Some o1 \<and>
                process_user_socket float_sample 0 ready m1 report_filled = (Returned (), m2) \<and>
                orders (cache m2) (I 4293153) = Some o2 \<and>
                orders (cache m2) (I 4293153) \<noteq> Some o1))"
proof -
  let ?o1 = "\<lparr>event = report_new, symbol = S ''BTCUSDT'', side = S ''BUY'', order_type = S ''LIMIT'',
          id' = I 4293153, cumulative_quote_qty = 1 / 4 :: rat, status = S ''NEW'', price = 2,
          transaction_time = I 1499405658657\<rparr>"
  let ?o2 = "\<lparr>event = report_filled, symbol = S ''BTCUSDT'', side = S ''BUY'', order_type = S ''LIMIT'',
          id' = I 4293153, cumulative_quote_qty = 3 / 2 :: rat, status = S ''FILLED'', price = 2,
          transaction_time = I 1499405658700\<rparr>"
  have e1: "subscript report_new ''e'' = Inr (S ''executionReport'')"
    by (simp add: report_new_def)
  have e2: "subscript report_filled ''e'' = Inr (S ''executionReport'')"
    by (simp add: report_filled_def)
  have h: "hashable (I 4293153)" by simp
  have d: "?o1 \<noteq> ?o2" by simp
  have i1: "id' ?o1 = I 4293153" and i2: "id' ?o2 = I 4293153"
    and s1: "status ?o1 = S ''NEW''" and s2: "status ?o2 = S ''FILLED''" by simp_all
  from executionReport_overwrites [where ?e1.0 = report_new and ?e2.0 = report_filled
      and flt = float_sample and ?o1.0 = ?o1 and ?o2.0 = ?o2 and i = "I 4293153"
      and fuel = 0 and bm = ready and m = fresh]
    e1 e2 h d i1 i2 order_of_report_new order_of_report_filled
  have "\<exists>m1 m2. process_user_socket float_sample 0 ready fresh report_new = (Returned (), m1) \<and>
                orders (cache m1) (I 4293153) = Some ?o1 \<and>
                process_user_socket float_sample 0 ready m1 report_filled = (Returned (), m2) \<and>
                orders (cache m2) (I 4293153) = Some ?o2 \<and>
                orders (cache m2) (I 4293153) \<noteq> Some ?o1"
    by blast
  then show ?thesis
    using e1 e2 h i1 i2 s1 s2 order_of_report_new order_of_report_filled by blast
qed

section \<open>The update loops\<close>

lemma map_add_upd_rev:
  "f(k \<mapsto> v) ++ map_of (rev ps) = f ++ map_of (rev ((k, v) # ps))"
  by (rule ext) (simp add: map_add_def map_of_append split: option.splits)

lemma map_add_rev_append:
  "(f ++ map_of (rev ps)) ++ map_of (rev qs) = f ++ map_of (rev (ps @ qs))"
  by (rule ext) (simp add: map_add_def map_of_append split: option.splits)

lemma map_of_rev_last:
  assumes "k \<notin> fst ` set vs"
  shows "map_of (rev (us @ (k, v) # vs)) k = Some v"
proof -
  have "map_of (rev vs) k = None" using assms by (simp add: map_of_eq_None_iff)
  then show ?thesis by (simp add: map_of_append map_add_def)
qed

lemma map_add_rev_frame:
  assumes "k \<notin> fst ` set ps"
  shows "(f ++ map_of (rev ps)) k = f k"
proof -
  have "map_of (rev ps) k = None" using assms by (simp add: map_of_eq_None_iff)
  then show ?thesis by (simp add: map_add_def)
qed

lemma entry_of_S [simp]: "entry_of flt kf vf (S x) = None"
  by (simp add: entry_of_def)

lemma entries_no_string:
  "map (entry_of flt kf vf) ts = map Some ps \<Longrightarrow> S x \<notin> set ts"
  by (induction ts arbitrary: ps) (auto simp: Cons_eq_map_conv)

lemma set_ticker_entry:
  "entry_of flt ''s'' ''c'' t = Some (k, v) \<Longrightarrow>
   set_ticker flt m t =
     Inr (m\<lparr>cache := (cache m)\<lparr>ticker_values := (ticker_values (cache m))(k \<mapsto> v)\<rparr>\<rparr>)"
  by (auto simp: entry_of_def set_ticker_def split: sum.splits if_splits)

lemma set_balance_entry:
  "entry_of flt ''a'' ''f'' b = Some (k, v) \<Longrightarrow>
   set_balance flt m b =
     Inr (m\<lparr>cache := (cache m)\<lparr>balances := (balances (cache m))(k \<mapsto> v)\<rparr>\<rparr>)"
  by (auto simp: entry_of_def set_balance_def split: sum.splits if_splits)

lemma ticker_loop_entries:
  "map (entry_of flt ''s'' ''c'') ts = map Some ps \<Longrightarrow>
   ticker_loop flt m ts =
     (Returned (),
      m\<lparr>cache := (cache m)\<lparr>ticker_values := ticker_values (cache m) ++ map_of (rev ps)\<rparr>\<rparr>)"
proof (induction ts arbitrary: m ps)
  case Nil
  then show ?case by simp
next
  case (Cons t ts)
  then obtain k v ps' where ps: "ps = (k, v) # ps'"
    and t: "entry_of flt ''s'' ''c'' t = Some (k, v)"
    and r: "map (entry_of flt ''s'' ''c'') ts = map Some ps'"
    by (cases ps) auto
  let ?m1 = "m\<lparr>cache := (cache m)\<lparr>ticker_values := (ticker_values (cache m))(k \<mapsto> v)\<rparr>\<rparr>"
  have "ticker_loop flt m (t # ts) = ticker_loop flt ?m1 ts"
    by (simp add: set_ticker_entry [OF t])
  also have "\<dots> = (Returned (),
      ?m1\<lparr>cache := (cache ?m1)\<lparr>ticker_values := ticker_values (cache ?m1) ++ map_of (rev ps')\<rparr>\<rparr>)"
    by (rule Cons.IH [OF r])
  finally show ?case
    by (simp add: ps map_add_upd_rev del: rev.simps)
qed

lemma balance_loop_entries:
  "map (entry_of flt ''a'' ''f'') bs = map Some ps \<Longrightarrow>
   balance_loop flt m bs =
     (Returned (),
      m\<lparr>cache := (cache m)\<lparr>balances := balances (cache m) ++ map_of (rev ps)\<rparr>\<rparr>)"
proof (induction bs arbitrary: m ps)
  case Nil
  then show ?case by simp
next
  case (Cons b bs)
  then obtain k v ps' where ps: "ps = (k, v) # ps'"
    and t: "entry_of flt ''a'' ''f'' b = Some (k, v)"
    and r: "map (entry_of flt ''a'' ''f'') bs = map Some ps'"
    by (cases ps) auto
  let ?m1 = "m\<lparr>cache := (cache m)\<lparr>balances := (balances (cache m))(k \<mapsto> v)\<rparr>\<rparr>"
  have "balance_loop flt m (b # bs) = balance_loop flt ?m1 bs"
    by (simp add: set_balance_entry [OF t])
  also have "\<dots> = (Returned (),
      ?m1\<lparr>cache := (cache ?m1)\<lparr>balances := balances (cache ?m1) ++ map_of (rev ps')\<rparr>\<rparr>)"
    by (rule Cons.IH [OF r])
  finally show ?case
    by (simp add: ps map_add_upd_rev del: rev.simps)
qed

lemma ticker_loop_append:
  "ticker_loop flt m (xs @ ys) =
     (case ticker_loop flt m xs of
        (Returned u, m') \<Rightarrow> ticker_loop flt m' ys
      | (Raised e, m') \<Rightarrow> (Raised e, m')
      | (OutOfFuel, m') \<Rightarrow> (OutOfFuel, m'))"
  by (induction xs arbitrary: m) (simp_all split: sum.splits)

lemma ticker_loop_raises:
  assumes "t \<in> set ts" and "\<And>x. set_ticker flt x t = Inl e0"
  shows "\<exists>e m'. ticker_loop flt m ts = (Raised e, m')"
  using assms(1)
proof (induction ts arbitrary: m)
  case Nil
  then show ?case by simp
next
  case (Cons x xs)
  show ?case
  proof (cases "set_ticker flt m x")
    case (Inl e)
    then show ?thesis by simp
  next
    case (Inr m1)
    then have "x \<noteq> t" using assms(2) [of m] by auto
    then have "t \<in> set xs" using Cons.prems by simp
    then show ?thesis using Cons.IH [of m1] Inr by simp
  qed
qed

lemma is_error_msg_L:
  "is_error_msg (L ts) = (if S ''e'' \<in> set ts then Inl TypeError else Inr False)"
  by (simp add: is_error_msg_def)

lemma process_ticker_values_entries:
  assumes "map (entry_of flt ''s'' ''c'') ts = map Some ps"
  shows "process_ticker_values flt fuel bm m (L ts) =
     (Returned (),
      m\<lparr>cache := (cache m)\<lparr>ticker_values := ticker_values (cache m) ++ map_of (rev ps)\<rparr>\<rparr>)"
  using entries_no_string [OF assms, of "''e''"] ticker_loop_entries [OF assms, of m]
  by (simp add: process_ticker_values_def is_error_msg_L)

lemma deliver_ticker_entries:
  "map (map (entry_of flt ''s'' ''c'')) tss = map (map Some) pss \<Longrightarrow>
   deliver_ticker flt fuel bm m (map L tss) =
     (Returned (),
      m\<lparr>cache := (cache m)\<lparr>ticker_values :=
           ticker_values (cache m) ++ map_of (rev (concat pss))\<rparr>\<rparr>)"
proof (induction tss arbitrary: m pss)
  case Nil
  then show ?case by simp
next
  case (Cons ts tss)
  then obtain ps pss' where pss: "pss = ps # pss'"
    and t: "map (entry_of flt ''s'' ''c'') ts = map Some ps"
    and r: "map (map (entry_of flt ''s'' ''c'')) tss = map (map Some) pss'"
    by (cases pss) auto
  let ?m1 = "m\<lparr>cache := (cache m)\<lparr>ticker_values :=
               ticker_values (cache m) ++ map_of (rev ps)\<rparr>\<rparr>"
  have "deliver_ticker flt fuel bm m (map L (ts # tss)) = deliver_ticker flt fuel bm ?m1 (map L tss)"
    by (simp add: process_ticker_values_entries [OF t])
  also have "\<dots> = (Returned (),
      ?m1\<lparr>cache := (cache ?m1)\<lparr>ticker_values :=
           ticker_values (cache ?m1) ++ map_of (rev (concat pss'))\<rparr>\<rparr>)"
    by (rule Cons.IH [OF r])
  finally show ?case
    by (simp add: pss map_add_rev_append del: rev_append rev_concat)
qed

section \<open>Ticker prices\<close>

text \<open>
  C4. A sequence of ticker messages, each an array of well-formed updates, is processed
  without a fault. Afterwards the ticker-price cache maps every symbol that appeared to the
  price of the last update carrying it, and every other key to what it held before; so,
  starting from an empty cache, it holds exactly the symbols that appeared.
\<close>

theorem ticker_last_write_wins:
  assumes "map (map (entry_of flt ''s'' ''c'')) tss = map (map Some) pss"
  shows "\<exists>m'. deliver_ticker flt fuel bm m (map L tss) = (Returned (), m') \<and>
              (\<forall>us k v vs. concat pss = us @ (k, v) # vs \<and> k \<notin> fst ` set vs \<longrightarrow>
                  ticker_values (cache m') k = Some v) \<and>
              (\<forall>k. k \<notin> fst ` set (concat pss) \<longrightarrow>
                  ticker_values (cache m') k = ticker_values (cache m) k) \<and>
              (ticker_values (cache m) = Map.empty \<longrightarrow>
                  dom (ticker_values (cache m')) = fst ` set (concat pss))"
proof -
  let ?m' = "m\<lparr>cache := (cache m)\<lparr>ticker_values :=
               ticker_values (cache m) ++ map_of (rev (concat pss))\<rparr>\<rparr>"
  have d: "deliver_ticker flt fuel bm m (map L tss) = (Returned (), ?m')"
    using assms by (rule deliver_ticker_entries)
  have l: "\<forall>us k v vs. concat pss = us @ (k, v) # vs \<and> k \<notin> fst ` set vs \<longrightarrow>
                  ticker_values (cache ?m') k = Some v"
  proof (intro allI impI)
    fix us k v vs
    assume a: "concat pss = us @ (k, v) # vs \<and> k \<notin> fst ` set vs"
    then have "map_of (rev (concat pss)) k = Some v"
      using map_of_rev_last [of k vs us v] by simp
    then show "ticker_values (cache ?m') k = Some v" by (simp add: map_add_def)
  qed
  have f: "\<forall>k. k \<notin> fst ` set (concat pss) \<longrightarrow>
                  ticker_values (cache ?m') k = ticker_values (cache m) k"
    using map_add_rev_frame [of _ "concat pss" "ticker_values (cache m)"] by simp
  have e: "ticker_values (cache m) = Map.empty \<longrightarrow>
                  dom (ticker_values (cache ?m')) = fst ` set (concat pss)"
    by (simp add: dom_map_of_conv_image_fst del: rev_concat)
  show ?thesis using d l f e by blast
qed

theorem ticker_last_write_wins_witness:
  "map (map (entry_of float_sample ''s'' ''c'')) [[upd_btc_2, upd_eth], [upd_btc_15]] =
     map (map Some) [[(S ''BTCUSDT'', 2), (S ''ETHUSDT'', 1 / 4)], [(S ''BTCUSDT'', 3 / 2)]] \<and>
   (\<exists>m'. deliver_ticker float_sample 0 ready fresh (map L [[upd_btc_2, upd_eth], [upd_btc_15]]) =
            (Returned (), m') \<and>
         ticker_values (cache m') (S ''BTCUSDT'') = Some (3 / 2) \<and>
         ticker_values (cache m') (S ''ETHUSDT'') = Some (1 / 4) \<and>
         ticker_values (cache m') (S ''BNBUSDT'') = None)"
proof -
  let ?tss = "[[upd_btc_2, upd_eth], [upd_btc_15]]"
  let ?pss = "[[(S ''BTCUSDT'', 2 :: rat), (S ''ETHUSDT'', 1 / 4)], [(S ''BTCUSDT'', 3 / 2)]]"
  have h: "map (map (entry_of float_sample ''s'' ''c'')) ?tss = map (map Some) ?pss"
    by (simp add: entry_of_def float_sample_def upd_btc_2_def upd_eth_def upd_btc_15_def)
  obtain m' where d: "deliver_ticker float_sample 0 ready fresh (map L ?tss) = (Returned (), m')"
    and l: "\<forall>us k v vs. concat ?pss = us @ (k, v) # vs \<and> k \<notin> fst ` set vs \<longrightarrow>
                  ticker_values (cache m') k = Some v"
    and f: "\<forall>k. k \<notin> fst ` set (concat ?pss) \<longrightarrow>
                  ticker_values (cache m') k = ticker_values (cache fresh) k"
    using ticker_last_write_wins [OF h, of 0 ready fresh] by blast
  have 1: "ticker_values (cache m') (S ''BTCUSDT'') = Some (3 / 2)"
    using l [rule_format, of "[(S ''BTCUSDT'', 2), (S ''ETHUSDT'', 1 / 4)]" "S ''BTCUSDT''" "3 / 2" "[]"]
    by simp
  have 2: "ticker_values (cache m') (S ''ETHUSDT'') = Some (1 / 4)"
    using l [rule_format, of "[(S ''BTCUSDT'', 2)]" "S ''ETHUSDT''" "1 / 4" "[(S ''BTCUSDT'', 3 / 2)]"]
    by simp
  have 3: "ticker_values (cache m') (S ''BNBUSDT'') = None"
    using f [rule_format, of "S ''BNBUSDT''"] by (simp add: fresh_def)
  show ?thesis using h d 1 2 3 by blast
qed

text \<open>
  C8. A ticker message (an array of updates) with an update whose price string \<open>float\<close>
  rejects is not processed to the end: the handler raises.
\<close>

theorem malformed_price_raises:
  assumes "t \<in> set ts" and "subscript t ''c'' = Inr (S p)" and "flt (S p) = Inl e0"
  shows "\<exists>e m'. process_ticker_values flt fuel bm m (L ts) = (Raised e, m')"
proof (cases "S ''e'' \<in> set ts")
  case True
  then show ?thesis by (simp add: process_ticker_values_def is_error_msg_L)
next
  case False
  have "\<And>x. set_ticker flt x t = Inl e0"
    using assms(2,3) by (simp add: set_ticker_def)
  from ticker_loop_raises [OF assms(1) this, of m]
  show ?thesis using False by (simp add: process_ticker_values_def is_error_msg_L)
qed

theorem malformed_price_raises_witness:
  "upd_malformed \<in> set [upd_btc_15, upd_malformed, upd_eth] \<and>
   subscript upd_malformed ''c'' = Inr (S ''n/a'') \<and>
   float_sample (S ''n/a'') = Inl ValueError \<and>
   fst (process_ticker_values float_sample 0 ready fresh (L [upd_btc_15, upd_malformed, upd_eth])) =
     Raised ValueError"
proof -
  have a: "upd_malformed \<in> set [upd_btc_15, upd_malformed, upd_eth]" by simp
  have b: "subscript upd_malformed ''c'' = Inr (S ''n/a'')" by (simp add: upd_malformed_def)
  have c: "float_sample (S ''n/a'') = Inl ValueError" by (simp add: float_sample_def)
  obtain e m' where r: "process_ticker_values float_sample 0 ready fresh
      (L [upd_btc_15, upd_malformed, upd_eth]) = (Raised e, m')"
    using malformed_price_raises [where flt = float_sample and p = "''n/a''" and ?e0.0 = ValueError
        and fuel = 0 and bm = ready and m = fresh, OF a b c] by blast
  have "fst (process_ticker_values float_sample 0 ready fresh
      (L [upd_btc_15, upd_malformed, upd_eth])) = Raised ValueError"
    by code_simp
  then have "e = ValueError" using r by simp
  then show ?thesis using a b c r by simp
qed

text \<open>
  C9. When the updates before a malformed one are well formed, the handler raises what
  \<open>float\<close> raised on the malformed price, and the state it leaves is the one that processing
  the earlier updates alone produces: their prices are in the cache, the later updates are
  not applied.
\<close>

theorem ticker_message_not_atomic:
  assumes "map (entry_of flt ''s'' ''c'') pre = map Some ps"
    and "subscript bad ''c'' = Inr (S p)" and "flt (S p) = Inl e0"
    and "S ''e'' \<notin> set post"
  shows "\<exists>m'. process_ticker_values flt fuel bm m (L (pre @ bad # post)) = (Raised e0, m') \<and>
              process_ticker_values flt fuel bm m (L pre) = (Returned (), m') \<and>
              ticker_values (cache m') = ticker_values (cache m) ++ map_of (rev ps)"
proof -
  let ?m' = "m\<lparr>cache := (cache m)\<lparr>ticker_values :=
               ticker_values (cache m) ++ map_of (rev ps)\<rparr>\<rparr>"
  have pre: "process_ticker_values flt fuel bm m (L pre) = (Returned (), ?m')"
    using assms(1) by (rule process_ticker_values_entries)
  have l: "ticker_loop flt m pre = (Returned (), ?m')"
    using assms(1) by (rule ticker_loop_entries)
  have b: "set_ticker flt ?m' bad = Inl e0"
    using assms(2,3) by (simp add: set_ticker_def)
  have n: "S ''e'' \<notin> set (pre @ bad # post)"
    using entries_no_string [OF assms(1), of "''e''"] assms(2,4) by auto
  have "ticker_loop flt m (pre @ bad # post) = (Raised e0, ?m')"
    by (simp add: ticker_loop_append l b)
  then have "process_ticker_values flt fuel bm m (L (pre @ bad # post)) = (Raised e0, ?m')"
    using n by (simp add: process_ticker_values_def is_error_msg_L)
  then show ?thesis using pre by simp
qed

theorem ticker_message_not_atomic_witness:
  "map (entry_of float_sample ''s'' ''c'') [upd_btc_15] = map Some [(S ''BTCUSDT'', 3 / 2)] \<and>
   subscript upd_malformed ''c'' = Inr (S ''n/a'') \<and>
   float_sample (S ''n/a'') = Inl ValueError \<and>
   S ''e'' \<notin> set [upd_eth] \<and>
   ticker_values (cache fresh) (S ''BTCUSDT'') = None \<and>
   (\<exists>m'. process_ticker_values float_sample 0 ready fresh (L ([upd_btc_15] @ upd_malformed # [upd_eth])) =
            (Raised ValueError, m') \<and>
         ticker_values (cache m') (S ''BTCUSDT'') = Some (3 / 2) \<and>
         ticker_values (cache m') (S ''ETHUSDT'') = None)"
proof -
  have a: "map (entry_of float_sample ''s'' ''c'') [upd_btc_15] = map Some [(S ''BTCUSDT'', 3 / 2)]"
    by (simp add: entry_of_def float_sample_def upd_btc_15_def)
  have b: "subscript upd_malformed ''c'' = Inr (S ''n/a'')" by (simp add: upd_malformed_def)
  have c: "float_sample (S ''n/a'') = Inl ValueError" by (simp add: float_sample_def)
  have d: "S ''e'' \<notin> set [upd_eth]" by (simp add: upd_eth_def)
  have e: "ticker_values (cache fresh) (S ''BTCUSDT'') = None" by (simp add: fresh_def)
  obtain m' where r: "process_ticker_values float_sample 0 ready fresh
        (L ([upd_btc_15] @ upd_malformed # [upd_eth])) = (Raised ValueError, m')"
    and t: "ticker_values (cache m') = ticker_values (cache fresh) ++ map_of (rev [(S ''BTCUSDT'', 3 / 2)])"
    using ticker_message_not_atomic [where flt = float_sample and p = "''n/a''"
        and ?e0.0 = ValueError and fuel = 0 and bm = ready and m = fresh, OF a b c d] by blast
  have 1: "ticker_values (cache m') (S ''BTCUSDT'') = Some (3 / 2)" by (simp add: t)
  have 2: "ticker_values (cache m') (S ''ETHUSDT'') = None" by (simp add: t fresh_def)
  show ?thesis using a b c d e r 1 2 by blast
qed

section \<open>Balances\<close>

text \<open>
  C6. An \<open>outboundAccountPosition\<close> event whose array \<open>B\<close> holds well-formed entries is
  processed without a fault. Afterwards the balances map gives every listed asset the free
  amount of its (last) entry in the event, and every asset that is not listed keeps exactly
  the entry, or the absence, it had before.
\<close>

theorem outboundAccountPosition_sets_balances:
  assumes "subscript msg ''e'' = Inr (S ''outboundAccountPosition'')"
    and "subscript msg ''B'' = Inr (L bs)"
    and "map (entry_of flt ''a'' ''f'') bs = map Some ps"
  shows "\<exists>m'. process_user_socket flt fuel bm m msg = (Returned (), m') \<and>
              (\<forall>us k v vs. ps = us @ (k, v) # vs \<and> k \<notin> fst ` set vs \<longrightarrow>
                  balances (cache m') k = Some v) \<and>
              (distinct (map fst ps) \<longrightarrow>
                 (\<forall>k v. (k, v) \<in> set ps \<longrightarrow> balances (cache m') k = Some v)) \<and>
              (\<forall>k. k \<notin> fst ` set ps \<longrightarrow> balances (cache m') k = balances (cache m) k)"
proof -
  let ?m = "emit LogDebug m"
  let ?m' = "?m\<lparr>cache := (cache ?m)\<lparr>balances := balances (cache ?m) ++ map_of (rev ps)\<rparr>\<rparr>"
  have c: "balances (cache ?m) = balances (cache m)" by (simp add: emit_def)
  have "balance_loop flt ?m bs = (Returned (), ?m')"
    using assms(3) by (rule balance_loop_entries)
  then have d: "process_user_socket flt fuel bm m msg = (Returned (), ?m')"
    using assms(1,2) by (simp add: process_user_socket_def Let_def)
  have l: "\<forall>us k v vs. ps = us @ (k, v) # vs \<and> k \<notin> fst ` set vs \<longrightarrow>
                  balances (cache ?m') k = Some v"
  proof (intro allI impI)
    fix us k v vs
    assume a: "ps = us @ (k, v) # vs \<and> k \<notin> fst ` set vs"
    then have "map_of (rev ps) k = Some v"
      using map_of_rev_last [of k vs us v] by simp
    then show "balances (cache ?m') k = Some v" by (simp add: map_add_def)
  qed
  have s: "distinct (map fst ps) \<longrightarrow>
             (\<forall>k v. (k, v) \<in> set ps \<longrightarrow> balances (cache ?m') k = Some v)"
  proof (intro allI impI)
    fix k v
    assume "distinct (map fst ps)" and "(k, v) \<in> set ps"
    then have "map_of (rev ps) k = Some v"
      by (intro map_of_is_SomeI) (simp_all add: rev_map [symmetric])
    then show "balances (cache ?m') k = Some v" by (simp add: map_add_def)
  qed
  have f: "\<forall>k. k \<notin> fst ` set ps \<longrightarrow> balances (cache ?m') k = balances (cache m) k"
    using map_add_rev_frame [of _ ps "balances (cache m)"] by (simp add: c)
  show ?thesis using d l s f by blast
qed

theorem outboundAccountPosition_sets_balances_witness:
  "subscript position_msg ''e'' = Inr (S ''outboundAccountPosition'') \<and>
   subscript position_msg ''B'' =
     Inr (L [D [(''a'', S ''ETH''), (''f'', S ''2''), (''l'', S ''0.25'')],
             D [(''a'', S ''USDT''), (''f'', S ''1.5''), (''l'', S ''2'')]]) \<and>
   map (entry_of float_sample ''a'' ''f'')
       [D [(''a'', S ''ETH''), (''f'', S ''2''), (''l'', S ''0.25'')],
        D [(''a'', S ''USDT''), (''f'', S ''1.5''), (''l'', S ''2'')]] =
     map Some [(S ''ETH'', 2), (S ''USDT'', 3 / 2)] \<and>
   (\<exists>m'. process_user_socket float_sample 0 ready holding position_msg = (Returned (), m') \<and>
         balances (cache m') (S ''ETH'') = Some 2 \<and>
         balances (cache m') (S ''USDT'') = Some (3 / 2) \<and>
         balances (cache m') (S ''BTC'') = Some (1 / 4))"
proof -
  let ?bs = "[D [(''a'', S ''ETH''), (''f'', S ''2''), (''l'', S ''0.25'')],
             D [(''a'', S ''USDT''), (''f'', S ''1.5''), (''l'', S ''2'')]]"
  let ?ps = "[(S ''ETH'', 2 :: rat), (S ''USDT'', 3 / 2)]"
  have a: "subscript position_msg ''e'' = Inr (S ''outboundAccountPosition'')"
    by (simp add: position_msg_def)
  have b: "subscript position_msg ''B'' = Inr (L ?bs)" by (simp add: position_msg_def)
  have c: "map (entry_of float_sample ''a'' ''f'') ?bs = map Some ?ps"
    by (simp add: entry_of_def float_sample_def)
  obtain m' where d: "process_user_socket float_sample 0 ready holding position_msg = (Returned (), m')"
    and s: "distinct (map fst ?ps) \<longrightarrow>
             (\<forall>k v. (k, v) \<in> set ?ps \<longrightarrow> balances (cache m') k = Some v)"
    and f: "\<forall>k. k \<notin> fst ` set ?ps \<longrightarrow> balances (cache m') k = balances (cache holding) k"
    using outboundAccountPosition_sets_balances [OF a b c, of 0 ready holding] by blast
  have 1: "balances (cache m') (S ''ETH'') = Some 2" using s by simp
  have 2: "balances (cache m') (S ''USDT'') = Some (3 / 2)" using s by simp
  have 3: "balances (cache m') (S ''BTC'') = Some (1 / 4)"
    using f [rule_format, of "S ''BTC''"] by (simp add: holding_def)
  show ?thesis using a b c d 1 2 3 by blast
qed

section \<open>The start operation when the transport raises\<close>

text \<open>
  The bound of \<open>retry\<close> is reached only through exceptions. After a first answer \<open>False\<close>,
  twenty start requests that raise exhaust the loop: the start operation returns \<open>None\<close>,
  having sent 21 requests in all. A first request that raises is outside \<open>retry\<close> and
  reaches the caller.
\<close>

lemma start_socket_false_then_fails:
  "fst (start_socket 2 false_then_fails Ticker fresh) = Returned None \<and>
   requests (snd (start_socket 2 false_then_fails Ticker fresh)) = 21"
  by code_simp

lemma start_socket_first_request_raises:
  "fst (start_socket 1 broken Ticker fresh) = Raised TransportError \<and>
   requests (snd (start_socket 1 broken Ticker fresh)) = 1"
  by code_simp

end
